theory Spec2Isabelle
  imports Complex_Main
begin

section \<open>Numbers of the host language\<close>

text \<open>
  The solver of \<^verbatim>\<open>flask_app.py\<close> computes with Python's \<^verbatim>\<open>int\<close> and
  \<^verbatim>\<open>float\<close>. Integers are unbounded (\<^typ>\<open>int\<close>). A float is idealised as an
  exact real number, or one of the special values \<^verbatim>\<open>inf\<close>, \<^verbatim>\<open>-inf\<close>,
  \<^verbatim>\<open>nan\<close>: rounding, the exponent range and the sign of zero are not modelled.
\<close>

datatype pyfloat = Fin real | PInf | NInf | NaN

datatype pyexn = SyntaxError | ZeroDivisionError | TypeError | ValueError

datatype pyval = PInt int | PFloat real | PTuple "pyval list" | PEllipsis

subsection \<open>Characters\<close>

definition is_digit :: "char \<Rightarrow> bool" where
  "is_digit c = (c \<in> set ''0123456789'')"

text \<open>The characters \<^verbatim>\<open>\s\<close> matches, among the code points below 256.\<close>

definition is_space :: "char \<Rightarrow> bool" where
  "is_space c = (c \<in> set [CHR '' '', CHR 0x09, CHR 0x0A, CHR 0x0B, CHR 0x0C, CHR 0x0D,
     CHR 0x1C, CHR 0x1D, CHR 0x1E, CHR 0x1F, CHR 0x85, CHR 0xA0])"

definition digit_val :: "char \<Rightarrow> nat" where
  "digit_val c = of_char c - 48"

definition digit_char :: "nat \<Rightarrow> char" where
  "digit_char d = (''0123456789'' ! d)"

definition digits_val :: "string \<Rightarrow> nat" where
  "digits_val ds = foldl (\<lambda>n c. 10 * n + digit_val c) 0 ds"

subsection \<open>\<^verbatim>\<open>str\<close> of a number\<close>

function str_nat :: "nat \<Rightarrow> string" where
  "str_nat n = (if n < 10 then [digit_char n] else str_nat (n div 10) @ [digit_char (n mod 10)])"
  by pat_completeness auto
termination
  by (relation "measure id") auto

declare str_nat.simps [simp del]

definition str_int :: "int \<Rightarrow> string" where
  "str_int i = (if i < 0 then ''-'' @ str_nat (nat (- i)) else str_nat (nat i))"

text \<open>
  \<^verbatim>\<open>repr\<close> of a positive float: the significant digits (at most 17, trailing zeros
  dropped) and the position of the decimal point; fixed notation while the point lies
  in \<open>-4 < decpt \<le> 16\<close>, scientific notation otherwise.
\<close>

definition strip_zeros :: "string \<Rightarrow> string" where
  "strip_zeros ds = rev (dropWhile (\<lambda>c. c = CHR ''0'') (rev ds))"

definition dec_exponent :: "real \<Rightarrow> int" where
  [code del]: "dec_exponent a = \<lfloor>log 10 a\<rfloor>"

definition repr_digits :: "real \<Rightarrow> string \<times> int" where
  "repr_digits a =
     (let e = dec_exponent a;
          n = nat (round (a * 10 powi (16 - e)))
      in if n \<ge> 10 ^ 17 then (strip_zeros (str_nat (n div 10)), e + 2)
         else (strip_zeros (str_nat n), e + 1))"

definition repr_pos :: "real \<Rightarrow> string" where
  "repr_pos a =
     (if a = of_int \<lfloor>a\<rfloor> \<and> a < 10 ^ 16 then str_nat (nat \<lfloor>a\<rfloor>) @ ''.0''
      else
        (let (ds, decpt) = repr_digits a; k = int (length ds) in
         if - 4 < decpt \<and> decpt \<le> 16 then
           (if decpt \<le> 0 then ''0.'' @ replicate (nat (- decpt)) (CHR ''0'') @ ds
            else if k \<le> decpt then ds @ replicate (nat (decpt - k)) (CHR ''0'') @ ''.0''
            else take (nat decpt) ds @ ''.'' @ drop (nat decpt) ds)
         else
           take 1 ds @ (if k > 1 then ''.'' @ drop 1 ds else [])
           @ ''e'' @ (if decpt - 1 < 0 then ''-'' else ''+'')
           @ (if \<bar>decpt - 1\<bar> < 10 then ''0'' else []) @ str_nat (nat \<bar>decpt - 1\<bar>)))"

fun str_float :: "pyfloat \<Rightarrow> string" where
  "str_float (Fin x) = (if x < 0 then ''-'' @ repr_pos (- x) else repr_pos x)"
| "str_float PInf = ''inf''"
| "str_float NInf = ''-inf''"
| "str_float NaN = ''nan''"

fun str_val :: "pyval \<Rightarrow> string" where
  "str_val (PInt i) = str_int i"
| "str_val (PFloat x) = str_float (Fin x)"
| "str_val PEllipsis = ''Ellipsis''"
| "str_val (PTuple vs) =
     (case vs of
        [] \<Rightarrow> ''()''
      | [v] \<Rightarrow> ''('' @ str_val v @ '',)''
      | v # ws \<Rightarrow> ''('' @ str_val v @ concat (map (\<lambda>w. '', '' @ str_val w) ws) @ '')'')"


subsection \<open>Float arithmetic\<close>

text \<open>
  A float read from decimal text, and every result of arithmetic on such floats, is
  finite in this model, so the operands of the arithmetic are real numbers. The special
  values come from the division sentinel of the reducer and from the caller of
  \<^verbatim>\<open>validate_answer\<close>; subtraction, absolute value and comparison are defined on them.
\<close>

fun float_neg :: "pyfloat \<Rightarrow> pyfloat" where
  "float_neg (Fin x) = Fin (- x)"
| "float_neg PInf = NInf"
| "float_neg NInf = PInf"
| "float_neg NaN = NaN"

fun float_add :: "pyfloat \<Rightarrow> pyfloat \<Rightarrow> pyfloat" where
  "float_add (Fin x) (Fin y) = Fin (x + y)"
| "float_add NaN _ = NaN"
| "float_add _ NaN = NaN"
| "float_add PInf NInf = NaN"
| "float_add NInf PInf = NaN"
| "float_add PInf _ = PInf"
| "float_add _ PInf = PInf"
| "float_add NInf _ = NInf"
| "float_add _ NInf = NInf"

definition float_sub :: "pyfloat \<Rightarrow> pyfloat \<Rightarrow> pyfloat" where
  "float_sub a b = float_add a (float_neg b)"

fun float_abs :: "pyfloat \<Rightarrow> pyfloat" where
  "float_abs (Fin x) = Fin \<bar>x\<bar>"
| "float_abs NInf = PInf"
| "float_abs a = a"

fun float_lt :: "pyfloat \<Rightarrow> pyfloat \<Rightarrow> bool" where
  "float_lt (Fin x) (Fin y) = (x < y)"
| "float_lt NaN _ = False"
| "float_lt _ NaN = False"
| "float_lt _ NInf = False"
| "float_lt PInf _ = False"
| "float_lt _ _ = True"

definition is_integral :: "real \<Rightarrow> bool" where
  "is_integral y = (y = of_int \<lfloor>y\<rfloor>)"

definition frac_pow :: "real \<Rightarrow> real \<Rightarrow> real" where
  [code del]: "frac_pow x y = x powr y"

text \<open>
  \<^verbatim>\<open>x ** y\<close> on floats. A negative base with a fractional exponent gives a complex
  number in Python; no caller of this model accepts one (\<^verbatim>\<open>float()\<close> rejects it with
  TypeError), so it is the TypeError here.
\<close>

definition float_pow :: "real \<Rightarrow> real \<Rightarrow> pyexn + real" where
  "float_pow x y =
     (if y = 0 then Inr 1
      else if x = 0 then (if y < 0 then Inl ZeroDivisionError else Inr 0)
      else if is_integral y then
        Inr (if 0 \<le> y then x ^ nat \<lfloor>y\<rfloor> else 1 / x ^ nat (- \<lfloor>y\<rfloor>))
      else if x < 0 then Inl TypeError
      else Inr (frac_pow x y))"

text \<open>
  \<^verbatim>\<open>float(s)\<close> for the texts the reducer passes to it: an optional minus sign, digits,
  an optional point, digits. Any other text is a ValueError here.
\<close>

definition float_of_digits :: "string \<Rightarrow> string \<Rightarrow> real" where
  "float_of_digits ip fp = real (digits_val ip) + real (digits_val fp) / 10 ^ length fp"

definition float_of_unsigned :: "string \<Rightarrow> pyexn + real" where
  "float_of_unsigned s =
     (let ip = takeWhile is_digit s; r = drop (length ip) s in
      if ip = [] then Inl ValueError
      else (case r of
              [] \<Rightarrow> Inr (float_of_digits ip [])
            | c # fp \<Rightarrow>
                if c = CHR ''.'' \<and> list_all is_digit fp then Inr (float_of_digits ip fp)
                else Inl ValueError))"

definition py_float_of_str :: "string \<Rightarrow> pyexn + real" where
  "py_float_of_str s =
     (case s of
        [] \<Rightarrow> Inl ValueError
      | c # r \<Rightarrow>
          if c = CHR ''-'' then map_sum id uminus (float_of_unsigned r)
          else float_of_unsigned s)"

section \<open>The regular expressions of the reducer\<close>

text \<open>
  A match object: \<^verbatim>\<open>start()\<close>, \<^verbatim>\<open>end()\<close> and the groups 1, 2, ... The four patterns
  of \<^verbatim>\<open>get_correct_steps\<close> are matched greedily; none of them can succeed after
  backtracking into a shorter number, because a shorter number is followed by a digit or
  a point, never by white space or an operator.
\<close>

record re_match =
  m_start :: nat
  m_end :: nat
  m_groups :: "string list"

definition group0 :: "string \<Rightarrow> re_match \<Rightarrow> string" where
  "group0 s m = take (m_end m - m_start m) (drop (m_start m) s)"

text \<open>\<^verbatim>\<open>\d+\.?\d*\<close> at the head of the text: the length of the match.\<close>

definition match_unum :: "string \<Rightarrow> nat option" where
  "match_unum s =
     (let n = length (takeWhile is_digit s) in
      if n = 0 then None
      else (case drop n s of
              [] \<Rightarrow> Some n
            | c # r \<Rightarrow>
                if c = CHR ''.'' then Some (n + 1 + length (takeWhile is_digit r))
                else Some n))"

text \<open>\<^verbatim>\<open>-?\d+\.?\d*\<close> at the head of the text.\<close>

definition match_snum :: "string \<Rightarrow> nat option" where
  "match_snum s =
     (case s of
        [] \<Rightarrow> None
      | c # r \<Rightarrow> if c = CHR ''-'' then map_option Suc (match_unum r) else match_unum s)"

text \<open>\<^verbatim>\<open>\([^()]+\)\<close> at the head of the text.\<close>

definition match_bracket_at :: "string \<Rightarrow> (nat \<times> string list) option" where
  "match_bracket_at s =
     (case s of
        [] \<Rightarrow> None
      | c # r \<Rightarrow>
          if c = CHR ''('' then
            (let n = length (takeWhile (\<lambda>d. d \<noteq> CHR ''('' \<and> d \<noteq> CHR '')'') r) in
             if n = 0 then None
             else (case drop n r of
                     [] \<Rightarrow> None
                   | d # _ \<Rightarrow> if d = CHR '')'' then Some (n + 2, []) else None))
          else None)"

text \<open>\<^verbatim>\<open>(\d+\.?\d*)\*\*(\d+\.?\d*)\<close> at the head of the text.\<close>

definition match_pow_at :: "string \<Rightarrow> (nat \<times> string list) option" where
  "match_pow_at s =
     (case match_unum s of
        None \<Rightarrow> None
      | Some la \<Rightarrow>
          (let r = drop la s in
           if take 2 r = ''**'' then
             (case match_unum (drop 2 r) of
                None \<Rightarrow> None
              | Some lb \<Rightarrow> Some (la + 2 + lb, [take la s, take lb (drop 2 r)]))
           else None))"

text \<open>
  \<^verbatim>\<open>(-?\d+\.?\d*)\s*([ops])\s*(-?\d+\.?\d*)\<close> at the head of the text, for the
  operator class \<open>ops\<close>: \<^verbatim>\<open>[\*/]\<close> or \<^verbatim>\<open>[\+\-]\<close>.
\<close>

definition match_binop_at :: "string \<Rightarrow> string \<Rightarrow> (nat \<times> string list) option" where
  "match_binop_at ops s =
     (case match_snum s of
        None \<Rightarrow> None
      | Some la \<Rightarrow>
          (let r1 = drop la s;
               w1 = length (takeWhile is_space r1)
           in case drop w1 r1 of
                [] \<Rightarrow> None
              | c # r3 \<Rightarrow>
                  if c \<in> set ops then
                    (let w2 = length (takeWhile is_space r3);
                         r4 = drop w2 r3
                     in case match_snum r4 of
                          None \<Rightarrow> None
                        | Some lb \<Rightarrow> Some (la + w1 + 1 + w2 + lb, [take la s, [c], take lb r4]))
                  else None))"

text \<open>\<^verbatim>\<open>re.search\<close>: the match at the leftmost position that has one.\<close>

definition shift_match :: "re_match \<Rightarrow> re_match" where
  "shift_match m = m\<lparr>m_start := Suc (m_start m), m_end := Suc (m_end m)\<rparr>"

fun re_search :: "(string \<Rightarrow> (nat \<times> string list) option) \<Rightarrow> string \<Rightarrow> re_match option" where
  "re_search pat [] =
     (case pat [] of
        None \<Rightarrow> None
      | Some (n, gs) \<Rightarrow> Some \<lparr>m_start = 0, m_end = n, m_groups = gs\<rparr>)"
| "re_search pat (c # cs) =
     (case pat (c # cs) of
        None \<Rightarrow> map_option shift_match (re_search pat cs)
      | Some (n, gs) \<Rightarrow> Some \<lparr>m_start = 0, m_end = n, m_groups = gs\<rparr>)"

text \<open>\<^verbatim>\<open>sub in s\<close> on strings.\<close>

fun str_in :: "string \<Rightarrow> string \<Rightarrow> bool" where
  "str_in sub [] = (sub = [])"
| "str_in sub (c # cs) = (take (length sub) (c # cs) = sub \<or> str_in sub cs)"


section \<open>\<^verbatim>\<open>eval\<close> on arithmetic text\<close>

text \<open>
  \<^verbatim>\<open>solve\<close> and the bracket phase hand a string to Python's \<^verbatim>\<open>eval\<close>. The model
  covers the expressions written with the digits, the point, \<^verbatim>\<open>e\<close> and \<^verbatim>\<open>E\<close>
  (float exponents), the operators \<^verbatim>\<open>+ - * / // **\<close>, parentheses, the comma, the
  space and the tab: numbers, tuples and \<^verbatim>\<open>...\<close>. Over that alphabet a name can only
  be spelled with \<^verbatim>\<open>e\<close> and \<^verbatim>\<open>E\<close>, no such name is bound where \<^verbatim>\<open>eval\<close> is
  called, and an expression that mentions one raises; the callers treat every exception
  alike, so all of them are reported as they occur here without telling SyntaxError from
  NameError. A text with any other character is outside the model and is reported as a
  SyntaxError too.
\<close>

datatype binop = Add | Sub | Mul | Div | FloorDiv | Pow

datatype token = TVal pyval | TOp binop | TLPar | TRPar | TComma

subsection \<open>Tokens\<close>

text \<open>
  A number literal at the head of the text, with the number of characters it takes:
  digits, an optional point and fraction, an optional exponent. A decimal integer with a
  leading zero is a SyntaxError unless it is zero.
\<close>

definition lex_exponent :: "string \<Rightarrow> (int \<times> nat) option" where
  "lex_exponent s =
     (case s of
        [] \<Rightarrow> None
      | c # r \<Rightarrow>
          if c = CHR ''e'' \<or> c = CHR ''E'' then
            (case r of
               [] \<Rightarrow> None
             | d # r' \<Rightarrow>
                 if d = CHR ''+'' \<or> d = CHR ''-'' then
                   (let ds = takeWhile is_digit r' in
                    if ds = [] then None
                    else Some ((if d = CHR ''-'' then - 1 else 1) * int (digits_val ds),
                               2 + length ds))
                 else
                   (let ds = takeWhile is_digit r in
                    if ds = [] then None else Some (int (digits_val ds), 1 + length ds)))
          else None)"

definition lex_number :: "string \<Rightarrow> (token \<times> nat) option" where
  "lex_number s =
     (let ip = takeWhile is_digit s;
          r1 = drop (length ip) s;
          has_point = (take 1 r1 = ''.'');
          fp = (if has_point then takeWhile is_digit (drop 1 r1) else []);
          n1 = length ip + (if has_point then 1 + length fp else 0)
      in if ip = [] \<and> fp = [] then None
         else
           (case lex_exponent (drop n1 s) of
              Some (ex, k) \<Rightarrow>
                Some (TVal (PFloat (float_of_digits ip fp * 10 powi ex)), n1 + k)
            | None \<Rightarrow>
                if has_point then Some (TVal (PFloat (float_of_digits ip fp)), n1)
                else if length ip > 1 \<and> hd ip = CHR ''0'' \<and> digits_val ip \<noteq> 0 then None
                else Some (TVal (PInt (int (digits_val ip))), n1)))"

fun tokenize :: "string \<Rightarrow> token list option" where
  "tokenize [] = Some []"
| "tokenize (c # cs) =
     (if c = CHR '' '' \<or> c = CHR 0x09 then tokenize cs
      else if c = CHR ''('' then map_option (Cons TLPar) (tokenize cs)
      else if c = CHR '')'' then map_option (Cons TRPar) (tokenize cs)
      else if c = CHR '','' then map_option (Cons TComma) (tokenize cs)
      else if c = CHR ''+'' then map_option (Cons (TOp Add)) (tokenize cs)
      else if c = CHR ''-'' then map_option (Cons (TOp Sub)) (tokenize cs)
      else if c = CHR ''*'' then
        (case cs of
           [] \<Rightarrow> Some [TOp Mul]
         | d # ds \<Rightarrow>
             if d = CHR ''*'' then map_option (Cons (TOp Pow)) (tokenize ds)
             else map_option (Cons (TOp Mul)) (tokenize cs))
      else if c = CHR ''/'' then
        (case cs of
           [] \<Rightarrow> Some [TOp Div]
         | d # ds \<Rightarrow>
             if d = CHR ''/'' then map_option (Cons (TOp FloorDiv)) (tokenize ds)
             else map_option (Cons (TOp Div)) (tokenize cs))
      else if take 3 (c # cs) = ''...'' then
        map_option (Cons (TVal PEllipsis)) (tokenize (drop 2 cs))
      else if is_digit c \<or> c = CHR ''.'' then
        (case lex_number (c # cs) of
           None \<Rightarrow> None
         | Some (t, n) \<Rightarrow> map_option (Cons t) (tokenize (drop (n - 1) cs)))
      else None)"

subsection \<open>Syntax\<close>

text \<open>
  The expression grammar of Python on these tokens:
  \<^verbatim>\<open>testlist: sum (',' sum)* [',']\<close>,
  \<^verbatim>\<open>sum: term (('+'|'-') term)*\<close>,
  \<^verbatim>\<open>term: factor (('*'|'/'|'//') factor)*\<close>,
  \<^verbatim>\<open>factor: ('+'|'-') factor | power\<close>,
  \<^verbatim>\<open>power: atom ['**' factor]\<close>,
  \<^verbatim>\<open>atom: NUMBER | '...' | '(' [testlist] ')'\<close>.
  The parentheses are matched first (\<open>nest\<close>), then each level is parsed with the groups
  inside it as atoms.
\<close>

datatype item = IVal pyval | IOp binop | IComma | IGroup "item list"

fun nest :: "token list \<Rightarrow> item list \<Rightarrow> item list list \<Rightarrow> item list option" where
  "nest [] cur [] = Some (rev cur)"
| "nest [] cur (outer # stk) = None"
| "nest (TLPar # ts) cur stk = nest ts [] (cur # stk)"
| "nest (TRPar # ts) cur [] = None"
| "nest (TRPar # ts) cur (outer # stk) = nest ts (IGroup (rev cur) # outer) stk"
| "nest (TVal v # ts) cur stk = nest ts (IVal v # cur) stk"
| "nest (TOp b # ts) cur stk = nest ts (IOp b # cur) stk"
| "nest (TComma # ts) cur stk = nest ts (IComma # cur) stk"

datatype expr = Const pyval | Pos expr | Neg expr | Bin binop expr expr | Tuple "expr list"

datatype elem = EExpr expr | EOp binop | EComma

fun parse_factor :: "elem list \<Rightarrow> (expr \<times> elem list) option" where
  "parse_factor (EOp Add # r) = map_option (\<lambda>(e, r'). (Pos e, r')) (parse_factor r)"
| "parse_factor (EOp Sub # r) = map_option (\<lambda>(e, r'). (Neg e, r')) (parse_factor r)"
| "parse_factor (EExpr a # EOp Pow # r) = map_option (\<lambda>(e, r'). (Bin Pow a e, r')) (parse_factor r)"
| "parse_factor (EExpr a # r) = Some (a, r)"
| "parse_factor _ = None"

function parse_term_rest :: "expr \<Rightarrow> elem list \<Rightarrow> (expr \<times> elem list) option" where
  "parse_term_rest lhs xs =
     (case xs of
        EOp b # r \<Rightarrow>
          if b = Mul \<or> b = Div \<or> b = FloorDiv then
            (case parse_factor r of
               None \<Rightarrow> None
             | Some (f, r') \<Rightarrow> parse_term_rest (Bin b lhs f) r')
          else Some (lhs, xs)
      | _ \<Rightarrow> Some (lhs, xs))"
  by pat_completeness auto
termination
proof (relation "measure (\<lambda>(lhs, xs). length xs)")
  have shorter: "parse_factor xs = Some (e, r) \<Longrightarrow> length r < length xs" for xs e r
    by (induction xs arbitrary: e r rule: parse_factor.induct) (auto split: prod.splits)
  show "wf (measure (\<lambda>(lhs, xs). length xs))" by simp
  show "((Bin b lhs f, r'), (lhs, xs)) \<in> measure (\<lambda>(lhs, xs). length xs)"
    if "xs = x # r" "x = EOp b" "b = Mul \<or> b = Div \<or> b = FloorDiv"
       "parse_factor r = Some p" "(f, r') = p"
    for lhs xs x r b p f r'
    using that shorter [of r f r'] by auto
qed

declare parse_term_rest.simps [simp del]

definition parse_term :: "elem list \<Rightarrow> (expr \<times> elem list) option" where
  "parse_term xs =
     (case parse_factor xs of
        None \<Rightarrow> None
      | Some (f, r) \<Rightarrow> parse_term_rest f r)"

function parse_sum_rest :: "expr \<Rightarrow> elem list \<Rightarrow> (expr \<times> elem list) option" where
  "parse_sum_rest lhs xs =
     (case xs of
        EOp b # r \<Rightarrow>
          if b = Add \<or> b = Sub then
            (case parse_term r of
               None \<Rightarrow> None
             | Some (t, r') \<Rightarrow> parse_sum_rest (Bin b lhs t) r')
          else Some (lhs, xs)
      | _ \<Rightarrow> Some (lhs, xs))"
  by pat_completeness auto
termination
proof (relation "measure (\<lambda>(lhs, xs). length xs)")
  have factor_shorter: "parse_factor xs = Some (e, r) \<Longrightarrow> length r < length xs" for xs e r
    by (induction xs arbitrary: e r rule: parse_factor.induct) (auto split: prod.splits)
  have rest_le: "parse_term_rest lhs xs = Some (e, r) \<Longrightarrow> length r \<le> length xs" for lhs xs e r
  proof (induction lhs xs arbitrary: e r rule: parse_term_rest.induct)
    case (1 lhs xs)
    show ?case
    proof (cases xs)
      case Nil
      with "1.prems" show ?thesis by (simp add: parse_term_rest.simps)
    next
      case (Cons x r0)
      show ?thesis
      proof (cases "\<exists>b. x = EOp b \<and> (b = Mul \<or> b = Div \<or> b = FloorDiv)")
        case False
        with "1.prems" Cons show ?thesis
          by (cases x) (auto simp: parse_term_rest.simps)
      next
        case True
        then obtain b where b: "x = EOp b" "b = Mul \<or> b = Div \<or> b = FloorDiv" by blast
        from "1.prems" Cons b obtain f r' where
          pf: "parse_factor r0 = Some (f, r')" and
          rec: "parse_term_rest (Bin b lhs f) r' = Some (e, r)"
          by (subst (asm) parse_term_rest.simps) (auto split: option.splits)
        from "1.IH" [OF Cons b(1) b(2) pf refl rec] have "length r \<le> length r'" .
        with factor_shorter [OF pf] Cons show ?thesis by simp
      qed
    qed
  qed
  show "wf (measure (\<lambda>(lhs, xs). length xs))" by simp
  show "((Bin b lhs t, r'), (lhs, xs)) \<in> measure (\<lambda>(lhs, xs). length xs)"
    if "xs = x # r" "x = EOp b" "b = Add \<or> b = Sub" "parse_term r = Some p" "(t, r') = p"
    for lhs xs x r b p t r'
  proof -
    from that obtain f r1 where pf: "parse_factor r = Some (f, r1)"
      and pr: "parse_term_rest f r1 = Some (t, r')"
      by (auto simp: parse_term_def split: option.splits)
    from factor_shorter [OF pf] rest_le [OF pr] that show ?thesis by simp
  qed
qed

declare parse_sum_rest.simps [simp del]

definition parse_sum :: "elem list \<Rightarrow> (expr \<times> elem list) option" where
  "parse_sum xs =
     (case parse_term xs of
        None \<Rightarrow> None
      | Some (t, r) \<Rightarrow> parse_sum_rest t r)"

text \<open>At one level of nesting no comma lies inside a sum, so the list is cut at its commas.\<close>

fun split_commas :: "elem list \<Rightarrow> elem list list" where
  "split_commas [] = [[]]"
| "split_commas (EComma # xs) = [] # split_commas xs"
| "split_commas (x # xs) =
     (case split_commas xs of
        [] \<Rightarrow> [[x]]
      | seg # segs \<Rightarrow> (x # seg) # segs)"

definition parse_whole_sum :: "elem list \<Rightarrow> expr option" where
  "parse_whole_sum xs =
     (case parse_sum xs of
        Some (e, []) \<Rightarrow> Some e
      | _ \<Rightarrow> None)"

definition parse_testlist :: "elem list \<Rightarrow> expr option" where
  "parse_testlist xs =
     (case split_commas xs of
        [seg] \<Rightarrow> parse_whole_sum seg
      | segs \<Rightarrow>
          map_option Tuple
            (those (map parse_whole_sum (if last segs = [] then butlast segs else segs))))"

fun parse_item :: "item \<Rightarrow> elem option" where
  "parse_item (IVal v) = Some (EExpr (Const v))"
| "parse_item (IOp b) = Some (EOp b)"
| "parse_item IComma = Some EComma"
| "parse_item (IGroup xs) =
     (case those (map parse_item xs) of
        None \<Rightarrow> None
      | Some es \<Rightarrow>
          if es = [] then Some (EExpr (Tuple [])) else map_option EExpr (parse_testlist es))"

definition py_parse :: "string \<Rightarrow> expr option" where
  "py_parse s =
     (case tokenize s of
        None \<Rightarrow> None
      | Some ts \<Rightarrow>
          (case nest ts [] [] of
             None \<Rightarrow> None
           | Some items \<Rightarrow>
               (case those (map parse_item items) of
                  None \<Rightarrow> None
                | Some es \<Rightarrow> if es = [] then None else parse_testlist es)))"

subsection \<open>Values\<close>

text \<open>
  Arithmetic on two ints, and on two floats once an int operand has been converted.
  True division and a negative power of ints give a float.
\<close>

definition int_binop :: "binop \<Rightarrow> int \<Rightarrow> int \<Rightarrow> pyexn + pyval" where
  "int_binop b x y =
     (case b of
        Add \<Rightarrow> Inr (PInt (x + y))
      | Sub \<Rightarrow> Inr (PInt (x - y))
      | Mul \<Rightarrow> Inr (PInt (x * y))
      | Div \<Rightarrow> if y = 0 then Inl ZeroDivisionError else Inr (PFloat (real_of_int x / real_of_int y))
      | FloorDiv \<Rightarrow> if y = 0 then Inl ZeroDivisionError else Inr (PInt (x div y))
      | Pow \<Rightarrow>
          if 0 \<le> y then Inr (PInt (x ^ nat y))
          else map_sum id PFloat (float_pow (real_of_int x) (real_of_int y)))"

definition float_binop :: "binop \<Rightarrow> real \<Rightarrow> real \<Rightarrow> pyexn + pyval" where
  "float_binop b x y =
     (case b of
        Add \<Rightarrow> Inr (PFloat (x + y))
      | Sub \<Rightarrow> Inr (PFloat (x - y))
      | Mul \<Rightarrow> Inr (PFloat (x * y))
      | Div \<Rightarrow> if y = 0 then Inl ZeroDivisionError else Inr (PFloat (x / y))
      | FloorDiv \<Rightarrow>
          if y = 0 then Inl ZeroDivisionError else Inr (PFloat (real_of_int \<lfloor>x / y\<rfloor>))
      | Pow \<Rightarrow> map_sum id PFloat (float_pow x y))"

fun py_binop :: "binop \<Rightarrow> pyval \<Rightarrow> pyval \<Rightarrow> pyexn + pyval" where
  "py_binop b (PInt x) (PInt y) = int_binop b x y"
| "py_binop b (PInt x) (PFloat y) = float_binop b (real_of_int x) y"
| "py_binop b (PFloat x) (PInt y) = float_binop b x (real_of_int y)"
| "py_binop b (PFloat x) (PFloat y) = float_binop b x y"
| "py_binop Add (PTuple xs) (PTuple ys) = Inr (PTuple (xs @ ys))"
| "py_binop Mul (PTuple xs) (PInt n) = Inr (PTuple (concat (replicate (nat n) xs)))"
| "py_binop Mul (PInt n) (PTuple xs) = Inr (PTuple (concat (replicate (nat n) xs)))"
| "py_binop _ _ _ = Inl TypeError"

fun py_neg :: "pyval \<Rightarrow> pyexn + pyval" where
  "py_neg (PInt x) = Inr (PInt (- x))"
| "py_neg (PFloat x) = Inr (PFloat (- x))"
| "py_neg _ = Inl TypeError"

fun py_pos :: "pyval \<Rightarrow> pyexn + pyval" where
  "py_pos (PInt x) = Inr (PInt x)"
| "py_pos (PFloat x) = Inr (PFloat x)"
| "py_pos _ = Inl TypeError"

text \<open>The elements of a tuple display are evaluated in order; the first exception wins.\<close>

fun collect :: "(pyexn + pyval) list \<Rightarrow> pyexn + pyval list" where
  "collect [] = Inr []"
| "collect (Inl e # rs) = Inl e"
| "collect (Inr v # rs) = map_sum id (Cons v) (collect rs)"

fun eval_expr :: "expr \<Rightarrow> pyexn + pyval" where
  "eval_expr (Const v) = Inr v"
| "eval_expr (Pos e) = (case eval_expr e of Inl x \<Rightarrow> Inl x | Inr v \<Rightarrow> py_pos v)"
| "eval_expr (Neg e) = (case eval_expr e of Inl x \<Rightarrow> Inl x | Inr v \<Rightarrow> py_neg v)"
| "eval_expr (Bin b l r) =
     (case eval_expr l of
        Inl x \<Rightarrow> Inl x
      | Inr v \<Rightarrow>
          (case eval_expr r of
             Inl x \<Rightarrow> Inl x
           | Inr w \<Rightarrow> py_binop b v w))"
| "eval_expr (Tuple es) = map_sum id PTuple (collect (map eval_expr es))"

definition py_eval :: "string \<Rightarrow> pyexn + pyval" where
  "py_eval s =
     (case py_parse s of
        None \<Rightarrow> Inl SyntaxError
      | Some e \<Rightarrow> eval_expr e)"

text \<open>\<^verbatim>\<open>float(v)\<close> of an evaluated value.\<close>

fun py_float :: "pyval \<Rightarrow> pyexn + pyfloat" where
  "py_float (PInt x) = Inr (Fin (real_of_int x))"
| "py_float (PFloat x) = Inr (Fin x)"
| "py_float _ = Inl TypeError"

section \<open>The solver: \<^verbatim>\<open>BODMASSolver\<close>\<close>

subsection \<open>The operations table and \<^verbatim>\<open>solve\<close>\<close>

text \<open>
  \<^verbatim>\<open>__init__\<close> stores a table from operator to precedence and function. Its division
  entry is \<^verbatim>\<open>lambda a, b: a / b if b != 0 else float('inf')\<close>. No method reads the table.
\<close>

definition operations :: "string \<rightharpoonup> nat \<times> (real \<Rightarrow> real \<Rightarrow> pyexn + pyfloat)" where
  "operations =
     [''+'' \<mapsto> (1, \<lambda>a b. Inr (Fin (a + b))),
      ''-'' \<mapsto> (1, \<lambda>a b. Inr (Fin (a - b))),
      ''*'' \<mapsto> (2, \<lambda>a b. Inr (Fin (a * b))),
      ''/'' \<mapsto> (2, \<lambda>a b. Inr (if b \<noteq> 0 then Fin (a / b) else PInf)),
      ''**'' \<mapsto> (3, \<lambda>a b. map_sum id Fin (float_pow a b))]"

text \<open>\<^verbatim>\<open>solve\<close>: \<^verbatim>\<open>float(eval(expr))\<close>, and \<^verbatim>\<open>None\<close> on any exception.\<close>

definition solve :: "string \<Rightarrow> pyfloat option" where
  "solve expr =
     (case py_eval expr of
        Inl e \<Rightarrow> None
      | Inr result \<Rightarrow>
          (case py_float result of
             Inl e \<Rightarrow> None
           | Inr f \<Rightarrow> Some f))"

subsection \<open>\<^verbatim>\<open>validate_answer\<close>\<close>

text \<open>The dictionary returned, as its list of keys and values.\<close>

datatype dval = DBool bool | DFloat pyfloat | DStr string | DNone

definition validate_answer :: "string \<Rightarrow> pyfloat \<Rightarrow> (string \<times> dval) list" where
  "validate_answer expr student_answer =
     (case solve expr of
        None \<Rightarrow>
          [(''is_correct'', DBool False),
           (''error'', DStr ''Invalid expression''),
           (''correct_answer'', DNone)]
      | Some correct_answer \<Rightarrow>
          (let is_correct =
                 float_lt (float_abs (float_sub student_answer correct_answer)) (Fin (1 / 10000))
           in [(''is_correct'', DBool is_correct),
               (''correct_answer'', DFloat correct_answer),
               (''student_answer'', DFloat student_answer)]))"

subsection \<open>The step trace: \<^verbatim>\<open>get_correct_steps\<close>\<close>

text \<open>One entry of the list the function returns: the dictionary with the keys
  \<^verbatim>\<open>step\<close>, \<^verbatim>\<open>expression\<close> and \<^verbatim>\<open>description\<close>.\<close>

record trace_step =
  step :: nat
  expression :: string
  description :: string

text \<open>\<^verbatim>\<open>current_expr[:i] + text + current_expr[j:]\<close>\<close>

definition splice :: "string \<Rightarrow> nat \<Rightarrow> nat \<Rightarrow> string \<Rightarrow> string" where
  "splice s i j new = take i s @ new @ drop j s"

text \<open>
  The body of each \<^verbatim>\<open>try\<close> block computes the new expression and the description of
  the step, or raises; the loops below append the step, or \<^verbatim>\<open>break\<close> on the exception.
\<close>

definition bracket_try :: "string \<Rightarrow> re_match \<Rightarrow> pyexn + string \<times> string" where
  "bracket_try current_expr m =
     (let bracket_expr = butlast (drop 1 (group0 current_expr m)) in
      case py_eval bracket_expr of
        Inl e \<Rightarrow> Inl e
      | Inr bracket_result \<Rightarrow>
          Inr (splice current_expr (m_start m) (m_end m) (str_val bracket_result),
               ''Brackets: ('' @ bracket_expr @ '') = '' @ str_val bracket_result))"

definition float_group :: "re_match \<Rightarrow> nat \<Rightarrow> pyexn + real" where
  "float_group m i =
     (if i < length (m_groups m) then py_float_of_str (m_groups m ! i) else Inl ValueError)"

definition pow_try :: "string \<Rightarrow> re_match \<Rightarrow> pyexn + string \<times> string" where
  "pow_try current_expr m =
     (case float_group m 0 of
        Inl e \<Rightarrow> Inl e
      | Inr a \<Rightarrow>
          (case float_group m 1 of
             Inl e \<Rightarrow> Inl e
           | Inr b \<Rightarrow>
               (case float_pow a b of
                  Inl e \<Rightarrow> Inl e
                | Inr result \<Rightarrow>
                    Inr (splice current_expr (m_start m) (m_end m) (str_float (Fin result)),
                         ''Orders/Exponents: '' @ group0 current_expr m @ '' = ''
                           @ str_float (Fin result)))))"

definition muldiv_try :: "string \<Rightarrow> re_match \<Rightarrow> pyexn + string \<times> string" where
  "muldiv_try current_expr m =
     (case float_group m 0 of
        Inl e \<Rightarrow> Inl e
      | Inr a \<Rightarrow>
          (case float_group m 2 of
             Inl e \<Rightarrow> Inl e
           | Inr b \<Rightarrow>
               (let op = m_groups m ! 1;
                    result = (if op = ''*'' then Fin (a * b)
                              else if b \<noteq> 0 then Fin (a / b) else PInf)
                in Inr (splice current_expr (m_start m) (m_end m) (str_float result),
                        ''Division/Multiplication: '' @ group0 current_expr m @ '' = ''
                          @ str_float result))))"

text \<open>
  The addition phase searches \<^verbatim>\<open>current_expr[1:]\<close>, so the match \<open>m\<close> is relative to
  that text: the splice adds the offset 1, \<^verbatim>\<open>match.group(0)\<close> does not need it.
\<close>

definition addsub_try :: "string \<Rightarrow> re_match \<Rightarrow> pyexn + string \<times> string" where
  "addsub_try current_expr m =
     (case float_group m 0 of
        Inl e \<Rightarrow> Inl e
      | Inr a \<Rightarrow>
          (case float_group m 2 of
             Inl e \<Rightarrow> Inl e
           | Inr b \<Rightarrow>
               (let offset = 1;
                    op = m_groups m ! 1;
                    result = Fin (if op = ''+'' then a + b else a - b)
                in Inr (splice current_expr (m_start m + offset) (m_end m + offset)
                          (str_float result),
                        ''Addition/Subtraction: '' @ group0 (drop 1 current_expr) m @ '' = ''
                          @ str_float result))))"

text \<open>
  The four loops. Each returns the working string, the steps and the step counter it
  ends with; \<open>None\<close> is a loop that never ends.
\<close>

type_synonym reducer_state = "string \<times> trace_step list \<times> nat"

definition new_step :: "nat \<Rightarrow> string \<times> string \<Rightarrow> trace_step" where
  "new_step step_num r = \<lparr>step = step_num, expression = fst r, description = snd r\<rparr>"

partial_function (option) bracket_loop :: "string \<Rightarrow> trace_step list \<Rightarrow> nat \<Rightarrow> reducer_state option"
where
  "bracket_loop current_expr steps step_num =
     (if CHR ''('' \<in> set current_expr then
        (case re_search match_bracket_at current_expr of
           None \<Rightarrow> Some (current_expr, steps, step_num)
         | Some m \<Rightarrow>
             (case bracket_try current_expr m of
                Inl e \<Rightarrow> Some (current_expr, steps, step_num)
              | Inr r \<Rightarrow> bracket_loop (fst r) (steps @ [new_step step_num r]) (step_num + 1)))
      else Some (current_expr, steps, step_num))"

partial_function (option) pow_loop :: "string \<Rightarrow> trace_step list \<Rightarrow> nat \<Rightarrow> reducer_state option"
where
  "pow_loop current_expr steps step_num =
     (if str_in ''**'' current_expr then
        (case re_search match_pow_at current_expr of
           None \<Rightarrow> Some (current_expr, steps, step_num)
         | Some m \<Rightarrow>
             (case pow_try current_expr m of
                Inl e \<Rightarrow> Some (current_expr, steps, step_num)
              | Inr r \<Rightarrow> pow_loop (fst r) (steps @ [new_step step_num r]) (step_num + 1)))
      else Some (current_expr, steps, step_num))"

partial_function (option) muldiv_loop :: "string \<Rightarrow> trace_step list \<Rightarrow> nat \<Rightarrow> reducer_state option"
where
  "muldiv_loop current_expr steps step_num =
     (if CHR ''*'' \<in> set current_expr \<or> CHR ''/'' \<in> set current_expr then
        (case re_search (match_binop_at ''*/'') current_expr of
           None \<Rightarrow> Some (current_expr, steps, step_num)
         | Some m \<Rightarrow>
             (case muldiv_try current_expr m of
                Inl e \<Rightarrow> Some (current_expr, steps, step_num)
              | Inr r \<Rightarrow> muldiv_loop (fst r) (steps @ [new_step step_num r]) (step_num + 1)))
      else Some (current_expr, steps, step_num))"

partial_function (option) addsub_loop :: "string \<Rightarrow> trace_step list \<Rightarrow> nat \<Rightarrow> reducer_state option"
where
  "addsub_loop current_expr steps step_num =
     (if CHR ''+'' \<in> set (drop 1 current_expr) \<or> CHR ''-'' \<in> set (drop 1 current_expr) then
        (case re_search (match_binop_at ''+-'') (drop 1 current_expr) of
           None \<Rightarrow> Some (current_expr, steps, step_num)
         | Some m \<Rightarrow>
             (case addsub_try current_expr m of
                Inl e \<Rightarrow> Some (current_expr, steps, step_num)
              | Inr r \<Rightarrow> addsub_loop (fst r) (steps @ [new_step step_num r]) (step_num + 1)))
      else Some (current_expr, steps, step_num))"

declare bracket_loop.simps [code] pow_loop.simps [code] muldiv_loop.simps [code]
  addsub_loop.simps [code]

text \<open>
  \<^verbatim>\<open>get_correct_steps\<close>: step 0, the spaces removed, then the four phases in order.
  \<open>None\<close> is a call that never returns.
\<close>

definition get_correct_steps :: "string \<Rightarrow> trace_step list option" where
  "get_correct_steps expr =
     (let steps = [\<lparr>step = 0, expression = expr, description = ''Original expression''\<rparr>];
          expr_clean = filter (\<lambda>c. c \<noteq> CHR '' '') expr
      in case bracket_loop expr_clean steps 1 of
           None \<Rightarrow> None
         | Some (e1, steps1, n1) \<Rightarrow>
             (case pow_loop e1 steps1 n1 of
                None \<Rightarrow> None
              | Some (e2, steps2, n2) \<Rightarrow>
                  (case muldiv_loop e2 steps2 n2 of
                     None \<Rightarrow> None
                   | Some (e3, steps3, n3) \<Rightarrow>
                       (case addsub_loop e3 steps3 n3 of
                          None \<Rightarrow> None
                        | Some (e4, steps4, n4) \<Rightarrow> Some steps4))))"

section \<open>The precedence law in the words of the specification\<close>

text \<open>
  The value the specification describes for a bracket-free expression
  \<open>v0 op1 v1 op2 v2 ...\<close> over \<^verbatim>\<open>+ - * /\<close>: a first pass applies every \<^verbatim>\<open>*\<close> and
  \<^verbatim>\<open>/\<close> from left to right, which leaves a first term and a list of signed terms; a
  second pass applies every \<^verbatim>\<open>+\<close> and \<^verbatim>\<open>-\<close> from left to right. An operation on
  a failed operand fails in the same way.
\<close>

definition apply_op :: "binop \<Rightarrow> pyexn + pyval \<Rightarrow> pyexn + pyval \<Rightarrow> pyexn + pyval" where
  "apply_op b x y =
     (case x of
        Inl e \<Rightarrow> Inl e
      | Inr v \<Rightarrow> (case y of Inl e \<Rightarrow> Inl e | Inr w \<Rightarrow> py_binop b v w))"

fun spec_muldiv_pass ::
  "pyexn + pyval \<Rightarrow> (binop \<times> pyval) list \<Rightarrow> (pyexn + pyval) \<times> (binop \<times> (pyexn + pyval)) list"
where
  "spec_muldiv_pass acc [] = (acc, [])"
| "spec_muldiv_pass acc ((b, v) # rest) =
     (if b = Mul \<or> b = Div then spec_muldiv_pass (apply_op b acc (Inr v)) rest
      else (case spec_muldiv_pass (Inr v) rest of (t, ts) \<Rightarrow> (acc, (b, t) # ts)))"

fun spec_addsub_pass :: "pyexn + pyval \<Rightarrow> (binop \<times> (pyexn + pyval)) list \<Rightarrow> pyexn + pyval" where
  "spec_addsub_pass acc [] = acc"
| "spec_addsub_pass acc ((b, t) # ts) = spec_addsub_pass (apply_op b acc t) ts"

definition spec_two_pass :: "pyval \<Rightarrow> (binop \<times> pyval) list \<Rightarrow> pyexn + pyval" where
  "spec_two_pass v0 rest =
     (case spec_muldiv_pass (Inr v0) rest of (t, ts) \<Rightarrow> spec_addsub_pass t ts)"

definition flat_tokens :: "pyval \<Rightarrow> (binop \<times> pyval) list \<Rightarrow> token list" where
  "flat_tokens v0 rest = TVal v0 # concat (map (\<lambda>(b, v). [TOp b, TVal v]) rest)"

definition four_ops :: "(binop \<times> pyval) list \<Rightarrow> bool" where
  "four_ops rest = list_all (\<lambda>(b, v). b = Add \<or> b = Sub \<or> b = Mul \<or> b = Div) rest"

text \<open>Notions used in the proofs only.\<close>

definition flat_elems :: "(binop \<times> pyval) list \<Rightarrow> elem list" where
  "flat_elems rest = concat (map (\<lambda>(b, v). [EOp b, EExpr (Const v)]) rest)"

definition is_muldiv :: "binop \<times> pyval \<Rightarrow> bool" where
  "is_muldiv p = (fst p = Mul \<or> fst p = Div)"

definition spec_terms :: "(binop \<times> pyval) list \<Rightarrow> (binop \<times> (pyexn + pyval)) list" where
  "spec_terms rest =
     (case rest of
        [] \<Rightarrow> []
      | (b, v) # r \<Rightarrow> (b, fst (spec_muldiv_pass (Inr v) r)) # snd (spec_muldiv_pass (Inr v) r))"

definition flat_items :: "(binop \<times> pyval) list \<Rightarrow> item list" where
  "flat_items rest = concat (map (\<lambda>(b, v). [IOp b, IVal v]) rest)"


text \<open>
  What every loop keeps: the steps it is given stay at the front of the steps it returns,
  and when the counter is the number of steps and the steps are numbered from 0, the
  same holds at the end.
\<close>

definition trace_inv :: "trace_step list \<Rightarrow> nat \<Rightarrow> reducer_state \<Rightarrow> bool" where
  "trace_inv steps k y =
     ((\<exists>ext. fst (snd y) = steps @ ext) \<and>
      (k = length steps \<and> map step steps = [0..<k] \<longrightarrow>
         snd (snd y) = length (fst (snd y))
         \<and> map step (fst (snd y)) = [0..<length (fst (snd y))]))"

section \<open>Properties\<close>

subsection \<open>Division by zero in \<^verbatim>\<open>solve\<close>\<close>

text \<open>
  Claim C1 says that \<^verbatim>\<open>solve("5 / 0")\<close> is positive infinity. The operations table
  and the division phase of the reducer have that rule, but \<^verbatim>\<open>solve\<close> evaluates the
  text with \<^verbatim>\<open>eval\<close>, whose division raises ZeroDivisionError, and returns \<^verbatim>\<open>None\<close>.
\<close>

theorem solve_division_by_zero:
  "solve ''5 / 0'' = None
   \<and> map_option (\<lambda>(prec, f). f 5 0) (operations ''/'') = Some (Inr PInf)
   \<and> map_option (map expression) (get_correct_steps ''5 / 0'') = Some [''5 / 0'', ''inf'']"
  by code_simp

subsection \<open>The last step of a trace\<close>

text \<open>
  Claim C3 says that the last expression of a trace reduced to completion is the number
  \<^verbatim>\<open>solve\<close> returns. For \<^verbatim>\<open>12+9\<close> every loop runs to its end without a
  \<^verbatim>\<open>break\<close>, the last expression \<^verbatim>\<open>111.0\<close> is a bare number, and \<^verbatim>\<open>solve\<close> returns
  21: the addition phase matches in \<^verbatim>\<open>current_expr[1:]\<close>, so the first digit of the left
  operand stays outside the match.
\<close>

theorem last_step_differs_from_solve:
  "get_correct_steps ''12+9'' =
     Some [\<lparr>step = 0, expression = ''12+9'', description = ''Original expression''\<rparr>,
           \<lparr>step = 1, expression = ''111.0'',
              description = ''Addition/Subtraction: 2+9 = 11.0''\<rparr>]
   \<and> py_float_of_str ''111.0'' = Inr 111
   \<and> solve ''12+9'' = Some (Fin 21)"
  by code_simp

subsection \<open>The trace of \<^verbatim>\<open>get_correct_steps\<close>\<close>

lemma trace_inv_stop: "trace_inv steps k (cur, steps, k)"
  by (simp add: trace_inv_def)

lemma trace_inv_step:
  assumes "\<And>c s n z. f c s n = Some z \<Longrightarrow> trace_inv s n z"
    and "f c (steps @ [new_step k r]) (Suc k) = Some y"
  shows "trace_inv steps k y"
  using assms(1) [OF assms(2)] by (auto simp: trace_inv_def new_step_def)

lemma bracket_loop_inv: "bracket_loop cur steps k = Some y \<Longrightarrow> trace_inv steps k y"
proof (erule bracket_loop.raw_induct [rotated, where P = "\<lambda>cur steps k y. trace_inv steps k y"],
    goal_cases)
  case (1 f cur steps k y)
  from "1"(2) show ?case
    by (auto split: if_splits option.splits sum.splits
        intro: trace_inv_stop trace_inv_step [OF "1"(1)])
qed

lemma pow_loop_inv: "pow_loop cur steps k = Some y \<Longrightarrow> trace_inv steps k y"
proof (erule pow_loop.raw_induct [rotated, where P = "\<lambda>cur steps k y. trace_inv steps k y"],
    goal_cases)
  case (1 f cur steps k y)
  from "1"(2) show ?case
    by (auto split: if_splits option.splits sum.splits
        intro: trace_inv_stop trace_inv_step [OF "1"(1)])
qed

lemma muldiv_loop_inv: "muldiv_loop cur steps k = Some y \<Longrightarrow> trace_inv steps k y"
proof (erule muldiv_loop.raw_induct [rotated, where P = "\<lambda>cur steps k y. trace_inv steps k y"],
    goal_cases)
  case (1 f cur steps k y)
  from "1"(2) show ?case
    by (auto split: if_splits option.splits sum.splits
        intro: trace_inv_stop trace_inv_step [OF "1"(1)])
qed

lemma addsub_loop_inv: "addsub_loop cur steps k = Some y \<Longrightarrow> trace_inv steps k y"
proof (erule addsub_loop.raw_induct [rotated, where P = "\<lambda>cur steps k y. trace_inv steps k y"],
    goal_cases)
  case (1 f cur steps k y)
  from "1"(2) show ?case
    by (auto split: if_splits option.splits sum.splits
        intro: trace_inv_stop trace_inv_step [OF "1"(1)])
qed

lemma get_correct_steps_inv:
  assumes "get_correct_steps expr = Some steps"
  shows "(\<exists>ext. steps =
            \<lparr>step = 0, expression = expr, description = ''Original expression''\<rparr> # ext)
         \<and> map step steps = [0..<length steps]"
proof -
  let ?s0 = "[\<lparr>step = 0, expression = expr, description = ''Original expression''\<rparr>]"
  from assms obtain e1 s1 n1 e2 s2 n2 e3 s3 n3 e4 n4 where
    b: "bracket_loop (filter (\<lambda>c. c \<noteq> CHR '' '') expr) ?s0 1 = Some (e1, s1, n1)" and
    p: "pow_loop e1 s1 n1 = Some (e2, s2, n2)" and
    m: "muldiv_loop e2 s2 n2 = Some (e3, s3, n3)" and
    a: "addsub_loop e3 s3 n3 = Some (e4, steps, n4)"
    by (auto simp: get_correct_steps_def split: option.splits)
  from bracket_loop_inv [OF b]
  have i1: "\<exists>ext. s1 = ?s0 @ ext" "n1 = length s1" "map step s1 = [0..<n1]"
    by (auto simp: trace_inv_def)
  from pow_loop_inv [OF p] i1
  have i2: "\<exists>ext. s2 = ?s0 @ ext" "n2 = length s2" "map step s2 = [0..<n2]"
    by (auto simp: trace_inv_def)
  from muldiv_loop_inv [OF m] i2
  have i3: "\<exists>ext. s3 = ?s0 @ ext" "n3 = length s3" "map step s3 = [0..<n3]"
    by (auto simp: trace_inv_def)
  from addsub_loop_inv [OF a] i3
  have "\<exists>ext. steps = ?s0 @ ext" "map step steps = [0..<length steps]"
    by (auto simp: trace_inv_def)
  then show ?thesis by auto
qed

text \<open>
  Claim C8: in every trace \<^verbatim>\<open>get_correct_steps\<close> returns, the step indices are
  0, 1, 2, ... in order, with no gap and no repeat.
\<close>

theorem trace_indices:
  "get_correct_steps expr = Some steps \<Longrightarrow> map step steps = [0..<length steps]"
  using get_correct_steps_inv by blast

theorem trace_indices_witness:
  "get_correct_steps ''(2 + 3) * 4'' =
     Some [\<lparr>step = 0, expression = ''(2 + 3) * 4'', description = ''Original expression''\<rparr>,
           \<lparr>step = 1, expression = ''5*4'', description = ''Brackets: (2+3) = 5''\<rparr>,
           \<lparr>step = 2, expression = ''20.0'',
              description = ''Division/Multiplication: 5*4 = 20.0''\<rparr>]
   \<and> map step
        [\<lparr>step = 0, expression = ''(2 + 3) * 4'', description = ''Original expression''\<rparr>,
         \<lparr>step = 1, expression = ''5*4'', description = ''Brackets: (2+3) = 5''\<rparr>,
         \<lparr>step = 2, expression = ''20.0'',
            description = ''Division/Multiplication: 5*4 = 20.0''\<rparr>] = [0, 1, 2]"
proof -
  have h: "get_correct_steps ''(2 + 3) * 4'' =
     Some [\<lparr>step = 0, expression = ''(2 + 3) * 4'', description = ''Original expression''\<rparr>,
           \<lparr>step = 1, expression = ''5*4'', description = ''Brackets: (2+3) = 5''\<rparr>,
           \<lparr>step = 2, expression = ''20.0'',
              description = ''Division/Multiplication: 5*4 = 20.0''\<rparr>]"
    by code_simp
  from trace_indices [OF h] h show ?thesis by (simp add: upt_rec)
qed

text \<open>
  Claim C9: the first step of every trace returned has index 0, the input text as it
  was given (spaces included) and the description \<^verbatim>\<open>Original expression\<close>.
\<close>

theorem first_step_original:
  "get_correct_steps expr = Some steps \<Longrightarrow>
     steps \<noteq> [] \<and>
     hd steps = \<lparr>step = 0, expression = expr, description = ''Original expression''\<rparr>"
  using get_correct_steps_inv [of expr steps] by auto

theorem first_step_original_witness:
  "get_correct_steps '' 24 / 3 / 2'' =
     Some [\<lparr>step = 0, expression = '' 24 / 3 / 2'', description = ''Original expression''\<rparr>,
           \<lparr>step = 1, expression = ''8.0/2'',
              description = ''Division/Multiplication: 24/3 = 8.0''\<rparr>,
           \<lparr>step = 2, expression = ''4.0'',
              description = ''Division/Multiplication: 8.0/2 = 4.0''\<rparr>]
   \<and> hd [\<lparr>step = 0, expression = '' 24 / 3 / 2'', description = ''Original expression''\<rparr>,
          \<lparr>step = 1, expression = ''8.0/2'',
             description = ''Division/Multiplication: 24/3 = 8.0''\<rparr>,
          \<lparr>step = 2, expression = ''4.0'',
             description = ''Division/Multiplication: 8.0/2 = 4.0''\<rparr>]
       = \<lparr>step = 0, expression = '' 24 / 3 / 2'', description = ''Original expression''\<rparr>"
proof -
  have h: "get_correct_steps '' 24 / 3 / 2'' =
     Some [\<lparr>step = 0, expression = '' 24 / 3 / 2'', description = ''Original expression''\<rparr>,
           \<lparr>step = 1, expression = ''8.0/2'',
              description = ''Division/Multiplication: 24/3 = 8.0''\<rparr>,
           \<lparr>step = 2, expression = ''4.0'',
              description = ''Division/Multiplication: 8.0/2 = 4.0''\<rparr>]"
    by code_simp
  from first_step_original [OF h] h show ?thesis by simp
qed

subsection \<open>A call that never returns\<close>

text \<open>
  The bracket phase replaces \<^verbatim>\<open>(1,2)\<close> by the text of the tuple it evaluates to,
  \<^verbatim>\<open>(1, 2)\<close>, which has its parentheses again, and then replaces that by itself for ever.
\<close>

lemma tuple_search:
  "re_search match_bracket_at ''(1, 2)'' = Some \<lparr>m_start = 0, m_end = 6, m_groups = []\<rparr>"
  by code_simp

lemma tuple_try:
  "bracket_try ''(1, 2)'' \<lparr>m_start = 0, m_end = 6, m_groups = []\<rparr>
     = Inr (''(1, 2)'', ''Brackets: (1, 2) = (1, 2)'')"
  by code_simp

lemma tuple_search_first:
  "re_search match_bracket_at ''(1,2)'' = Some \<lparr>m_start = 0, m_end = 5, m_groups = []\<rparr>"
  by code_simp

lemma tuple_try_first:
  "bracket_try ''(1,2)'' \<lparr>m_start = 0, m_end = 5, m_groups = []\<rparr>
     = Inr (''(1, 2)'', ''Brackets: (1,2) = (1, 2)'')"
  by code_simp

lemma bracket_loop_tuple_not_Some:
  "bracket_loop cur steps k = Some y \<Longrightarrow> cur \<noteq> ''(1, 2)''"
proof (erule bracket_loop.raw_induct [rotated, where P = "\<lambda>cur steps k y. cur \<noteq> ''(1, 2)''"],
    goal_cases)
  case (1 f cur steps k y)
  show ?case
  proof
    assume c: "cur = ''(1, 2)''"
    from "1"(2)
    have "f ''(1, 2)'' (steps @ [new_step k (''(1, 2)'', ''Brackets: (1, 2) = (1, 2)'')]) (k + 1)
            = Some y"
      unfolding c by (simp add: tuple_search tuple_try del: re_search.simps)
    from "1"(1) [OF this] show False by simp
  qed
qed

lemma bracket_loop_tuple: "bracket_loop ''(1, 2)'' steps k = None"
  using bracket_loop_tuple_not_Some [of "''(1, 2)''" steps k]
  by (cases "bracket_loop ''(1, 2)'' steps k") auto

text \<open>
  Claim C5 says that \<^verbatim>\<open>get_correct_steps\<close> returns a list of steps for every input
  string. On \<^verbatim>\<open>(1,2)\<close> it returns nothing: the bracket loop does not end.
\<close>

theorem get_correct_steps_tuple_diverges: "get_correct_steps ''(1,2)'' = None"
proof -
  have "bracket_loop ''(1,2)'' steps k = None" for steps k
    by (subst bracket_loop.simps)
       (simp add: tuple_search_first tuple_try_first bracket_loop_tuple del: re_search.simps)
  then show ?thesis by (simp add: get_correct_steps_def)
qed

subsection \<open>The answer validator\<close>

text \<open>
  Claim C6: when \<^verbatim>\<open>solve\<close> has a result, \<^verbatim>\<open>validate_answer\<close> reports
  \<^verbatim>\<open>is_correct\<close> exactly when the absolute difference of the student's answer and that
  result is below \<open>1/10000\<close> (never for an infinite or undefined answer), and returns
  both numbers; 4.00005 is accepted for \<^verbatim>\<open>2+2\<close> and 4.001 is not.
\<close>

theorem validate_answer_tolerance:
  "(solve expr = Some (Fin c) \<longrightarrow>
      validate_answer expr s =
        [(''is_correct'', DBool (case s of Fin x \<Rightarrow> \<bar>x - c\<bar> < 1 / 10000 | _ \<Rightarrow> False)),
         (''correct_answer'', DFloat (Fin c)),
         (''student_answer'', DFloat s)])
   \<and> map_of (validate_answer ''2+2'' (Fin (400005 / 100000))) ''is_correct'' = Some (DBool True)
   \<and> map_of (validate_answer ''2+2'' (Fin (4001 / 1000))) ''is_correct'' = Some (DBool False)"
proof (intro conjI impI)
  assume "solve expr = Some (Fin c)"
  then show "validate_answer expr s =
        [(''is_correct'', DBool (case s of Fin x \<Rightarrow> \<bar>x - c\<bar> < 1 / 10000 | _ \<Rightarrow> False)),
         (''correct_answer'', DFloat (Fin c)),
         (''student_answer'', DFloat s)]"
    by (cases s) (simp_all add: validate_answer_def float_sub_def)
next
  show "map_of (validate_answer ''2+2'' (Fin (400005 / 100000))) ''is_correct'' = Some (DBool True)"
    by code_simp
next
  show "map_of (validate_answer ''2+2'' (Fin (4001 / 1000))) ''is_correct'' = Some (DBool False)"
    by code_simp
qed

theorem validate_answer_tolerance_witness:
  "solve ''2+2'' = Some (Fin 4)
   \<and> validate_answer ''2+2'' (Fin (400005 / 100000)) =
        [(''is_correct'', DBool True),
         (''correct_answer'', DFloat (Fin 4)),
         (''student_answer'', DFloat (Fin (400005 / 100000)))]"
proof -
  have h: "solve ''2+2'' = Some (Fin 4)" by code_simp
  from validate_answer_tolerance [of "''2+2''" 4 "Fin (400005 / 100000)"] h
  show ?thesis by simp
qed

subsection \<open>Malformed input to \<^verbatim>\<open>solve\<close>\<close>


subsection \<open>The matches of the reducer\<close>













subsection \<open>Signed numbers in the three operator phases\<close>






subsection \<open>Precedence in \<^verbatim>\<open>solve\<close>\<close>

lemma flat_elems_simps [simp]:
  "flat_elems [] = []"
  "flat_elems ((b, v) # rest) = EOp b # EExpr (Const v) # flat_elems rest"
  by (simp_all add: flat_elems_def)

lemma four_ops_simps [simp]:
  "four_ops [] = True"
  "four_ops ((b, v) # rest) = ((b = Add \<or> b = Sub \<or> b = Mul \<or> b = Div) \<and> four_ops rest)"
  by (simp_all add: four_ops_def)

lemma is_muldiv_simp [simp]: "is_muldiv (b, v) = (b = Mul \<or> b = Div)"
  by (simp add: is_muldiv_def)

lemma eval_Bin: "eval_expr (Bin b l r) = apply_op b (eval_expr l) (eval_expr r)"
  by (simp add: apply_op_def)

lemma parse_factor_flat:
  "four_ops rest \<Longrightarrow> parse_factor (EExpr a # flat_elems rest) = Some (a, flat_elems rest)"
proof (cases rest)
  case Nil
  then show ?thesis by simp
next
  case (Cons p r)
  assume "four_ops rest"
  with Cons show ?thesis by (cases p) auto
qed

lemma four_ops_dropWhile: "four_ops rest \<Longrightarrow> four_ops (dropWhile P rest)"
  by (induction rest) auto

lemma parse_term_rest_flat:
  "four_ops rest \<Longrightarrow>
     \<exists>e. parse_term_rest lhs (flat_elems rest) = Some (e, flat_elems (dropWhile is_muldiv rest))
        \<and> eval_expr e = foldl (\<lambda>acc (b, v). apply_op b acc (Inr v)) (eval_expr lhs)
                           (takeWhile is_muldiv rest)"
proof (induction rest arbitrary: lhs)
  case Nil
  show ?case by (simp add: parse_term_rest.simps)
next
  case (Cons p rest)
  obtain b v where p: "p = (b, v)" by (cases p)
  from Cons.prems p have ok: "four_ops rest" and b: "b = Add \<or> b = Sub \<or> b = Mul \<or> b = Div"
    by auto
  show ?case
  proof (cases "b = Mul \<or> b = Div")
    case True
    from Cons.IH [OF ok, of "Bin b lhs (Const v)"] obtain e where
      e: "parse_term_rest (Bin b lhs (Const v)) (flat_elems rest)
            = Some (e, flat_elems (dropWhile is_muldiv rest))"
         "eval_expr e = foldl (\<lambda>acc (b, v). apply_op b acc (Inr v))
                          (eval_expr (Bin b lhs (Const v))) (takeWhile is_muldiv rest)"
      by blast
    have "parse_term_rest lhs (flat_elems (p # rest))
            = parse_term_rest (Bin b lhs (Const v)) (flat_elems rest)"
      using True p parse_factor_flat [OF ok, of "Const v"]
      by (subst parse_term_rest.simps) auto
    with e True p show ?thesis
      by (simp add: eval_Bin del: eval_expr.simps(4))
  next
    case False
    with b p show ?thesis
      by (subst parse_term_rest.simps) auto
  qed
qed

lemma spec_muldiv_pass_eq:
  "spec_muldiv_pass acc rest =
     (foldl (\<lambda>acc (b, v). apply_op b acc (Inr v)) acc (takeWhile is_muldiv rest),
      spec_terms (dropWhile is_muldiv rest))"
proof (induction rest arbitrary: acc)
  case Nil
  show ?case by (simp add: spec_terms_def)
next
  case (Cons p rest)
  obtain b v where p: "p = (b, v)" by (cases p)
  show ?case
  proof (cases "b = Mul \<or> b = Div")
    case True
    with p Cons.IH show ?thesis by simp
  next
    case False
    with p show ?thesis
      by (simp add: spec_terms_def split: prod.splits)
  qed
qed


lemma dropWhile_muldiv_head:
  "dropWhile is_muldiv rest = p # r \<Longrightarrow> \<not> is_muldiv p"
  by (metis dropWhile_eq_Cons_conv)

lemma parse_sum_rest_flat:
  "four_ops rest \<Longrightarrow> (rest = [] \<or> \<not> is_muldiv (hd rest)) \<Longrightarrow>
     \<exists>e. parse_sum_rest lhs (flat_elems rest) = Some (e, [])
        \<and> eval_expr e = spec_addsub_pass (eval_expr lhs) (spec_terms rest)"
proof (induction "length rest" arbitrary: rest lhs rule: less_induct)
  case less
  show ?case
  proof (cases rest)
    case Nil
    then show ?thesis by (simp add: parse_sum_rest.simps spec_terms_def)
  next
    case (Cons p r)
    obtain b v where p: "p = (b, v)" by (cases p)
    from less.prems Cons p have b: "b = Add \<or> b = Sub" and ok: "four_ops r" by auto
    let ?r' = "dropWhile is_muldiv r"
    from parse_term_rest_flat [OF ok, of "Const v"] obtain t where
      t: "parse_term_rest (Const v) (flat_elems r) = Some (t, flat_elems ?r')"
         "eval_expr t = foldl (\<lambda>acc (b, v). apply_op b acc (Inr v)) (Inr v) (takeWhile is_muldiv r)"
      by auto
    have tm: "parse_term (EExpr (Const v) # flat_elems r) = Some (t, flat_elems ?r')"
      using parse_factor_flat [OF ok, of "Const v"] t(1) by (simp add: parse_term_def)
    have len: "length ?r' < length rest"
      using Cons length_dropWhile_le [of is_muldiv r] by simp
    have hd_ok: "?r' = [] \<or> \<not> is_muldiv (hd ?r')"
      by (cases ?r') (auto dest: dropWhile_muldiv_head)
    from less.hyps [OF len four_ops_dropWhile [OF ok] hd_ok, of "Bin b lhs t"] obtain e where
      e: "parse_sum_rest (Bin b lhs t) (flat_elems ?r') = Some (e, [])"
         "eval_expr e = spec_addsub_pass (eval_expr (Bin b lhs t)) (spec_terms ?r')"
      by blast
    have step: "parse_sum_rest lhs (flat_elems rest) = parse_sum_rest (Bin b lhs t) (flat_elems ?r')"
      using Cons p b tm by (subst parse_sum_rest.simps) auto
    have "spec_terms rest = (b, eval_expr t) # spec_terms ?r'"
      using Cons p t(2) by (simp add: spec_terms_def spec_muldiv_pass_eq)
    with e step show ?thesis by (simp add: eval_Bin del: eval_expr.simps(4))
  qed
qed

lemma parse_sum_flat:
  assumes "four_ops rest"
  shows "\<exists>e. parse_sum (EExpr (Const v0) # flat_elems rest) = Some (e, [])
            \<and> eval_expr e = spec_two_pass v0 rest"
proof -
  let ?r' = "dropWhile is_muldiv rest"
  from parse_term_rest_flat [OF assms, of "Const v0"] obtain t where
    t: "parse_term_rest (Const v0) (flat_elems rest) = Some (t, flat_elems ?r')"
       "eval_expr t = foldl (\<lambda>acc (b, v). apply_op b acc (Inr v)) (Inr v0) (takeWhile is_muldiv rest)"
    by auto
  have tm: "parse_term (EExpr (Const v0) # flat_elems rest) = Some (t, flat_elems ?r')"
    using parse_factor_flat [OF assms, of "Const v0"] t(1) by (simp add: parse_term_def)
  have hd_ok: "?r' = [] \<or> \<not> is_muldiv (hd ?r')"
    by (cases ?r') (auto dest: dropWhile_muldiv_head)
  from parse_sum_rest_flat [OF four_ops_dropWhile [OF assms] hd_ok, of t] obtain e where
    e: "parse_sum_rest t (flat_elems ?r') = Some (e, [])"
       "eval_expr e = spec_addsub_pass (eval_expr t) (spec_terms ?r')"
    by blast
  have "spec_two_pass v0 rest = spec_addsub_pass (eval_expr t) (spec_terms ?r')"
    using t(2) by (simp add: spec_two_pass_def spec_muldiv_pass_eq)
  with e tm show ?thesis by (simp add: parse_sum_def)
qed


lemma nest_flat:
  "nest (concat (map (\<lambda>(b, v). [TOp b, TVal v]) rest)) cur [] = Some (rev cur @ flat_items rest)"
  by (induction rest arbitrary: cur) (auto simp: flat_items_def)

lemma those_flat:
  "those (map parse_item (flat_items rest)) = Some (flat_elems rest)"
  by (induction rest) (auto simp: flat_items_def)

lemma split_commas_flat: "split_commas (flat_elems rest) = [flat_elems rest]"
  by (induction rest) auto

lemma py_parse_flat:
  assumes "tokenize s = Some (flat_tokens v0 rest)" and "four_ops rest"
  shows "\<exists>e. py_parse s = Some e \<and> eval_expr e = spec_two_pass v0 rest"
proof -
  from parse_sum_flat [OF assms(2), of v0] obtain e where
    e: "parse_sum (EExpr (Const v0) # flat_elems rest) = Some (e, [])"
       "eval_expr e = spec_two_pass v0 rest" by blast
  have n: "nest (flat_tokens v0 rest) [] [] = Some (IVal v0 # flat_items rest)"
    using nest_flat [of rest "[IVal v0]"] by (simp add: flat_tokens_def)
  have t: "those (map parse_item (IVal v0 # flat_items rest))
             = Some (EExpr (Const v0) # flat_elems rest)"
    by (simp add: those_flat)
  have c: "split_commas (EExpr (Const v0) # flat_elems rest) = [EExpr (Const v0) # flat_elems rest]"
    by (simp add: split_commas_flat)
  have "parse_testlist (EExpr (Const v0) # flat_elems rest) = Some e"
    unfolding parse_testlist_def c using e(1) by (simp add: parse_whole_sum_def)
  with assms(1) n t e(2) show ?thesis by (simp add: py_parse_def)
qed

text \<open>
  Claim C2: for every text whose tokens are a number followed by operator and number
  pairs over \<^verbatim>\<open>+ - * /\<close>, \<^verbatim>\<open>solve\<close> returns the value of the two passes (and
  \<^verbatim>\<open>None\<close> where they fail, as on a division by zero); \<^verbatim>\<open>solve("2 + 3 * 4")\<close> is 14.
\<close>

theorem solve_precedence_law:
  "(tokenize s = Some (flat_tokens v0 rest) \<longrightarrow> four_ops rest \<longrightarrow>
      solve s =
        (case spec_two_pass v0 rest of
           Inl e \<Rightarrow> None
         | Inr v \<Rightarrow> (case py_float v of Inl e \<Rightarrow> None | Inr f \<Rightarrow> Some f)))
   \<and> solve ''2 + 3 * 4'' = Some (Fin 14)"
proof (intro conjI impI)
  assume a: "tokenize s = Some (flat_tokens v0 rest)" and b: "four_ops rest"
  from py_parse_flat [OF a b] obtain e where
    "py_parse s = Some e" "eval_expr e = spec_two_pass v0 rest" by blast
  then have "py_eval s = spec_two_pass v0 rest" by (simp add: py_eval_def)
  then show "solve s =
        (case spec_two_pass v0 rest of
           Inl e \<Rightarrow> None
         | Inr v \<Rightarrow> (case py_float v of Inl e \<Rightarrow> None | Inr f \<Rightarrow> Some f))"
    by (simp add: solve_def)
next
  show "solve ''2 + 3 * 4'' = Some (Fin 14)" by code_simp
qed

theorem solve_precedence_law_witness:
  "tokenize ''10 - 2 * 3 + 8 / 4'' =
      Some (flat_tokens (PInt 10) [(Sub, PInt 2), (Mul, PInt 3), (Add, PInt 8), (Div, PInt 4)])
   \<and> four_ops [(Sub, PInt 2), (Mul, PInt 3), (Add, PInt 8), (Div, PInt 4)]
   \<and> spec_two_pass (PInt 10) [(Sub, PInt 2), (Mul, PInt 3), (Add, PInt 8), (Div, PInt 4)]
        = Inr (PFloat 6)
   \<and> solve ''10 - 2 * 3 + 8 / 4'' = Some (Fin 6)"
proof -
  have h1: "tokenize ''10 - 2 * 3 + 8 / 4'' =
      Some (flat_tokens (PInt 10) [(Sub, PInt 2), (Mul, PInt 3), (Add, PInt 8), (Div, PInt 4)])"
    by code_simp
  have h2: "four_ops [(Sub, PInt 2), (Mul, PInt 3), (Add, PInt 8), (Div, PInt 4)]"
    by code_simp
  have h3: "spec_two_pass (PInt 10) [(Sub, PInt 2), (Mul, PInt 3), (Add, PInt 8), (Div, PInt 4)]
        = Inr (PFloat 6)"
    by code_simp
  from solve_precedence_law [of "''10 - 2 * 3 + 8 / 4''" "PInt 10"
      "[(Sub, PInt 2), (Mul, PInt 3), (Add, PInt 8), (Div, PInt 4)]"] h1 h2 h3
  show ?thesis by simp
qed


end
